theory Spec2Isabelle
  imports Complex_Main "HOL-Library.AList"
begin

section \<open>Rating enforcement hook (src/hooks/use-rating.ts)\<close>

text \<open>
  Modelled from the spec: the declaration of \<open>TaskType\<close> lives in \<open>@/lib/types\<close>, which
  is not among the sources. The record carries the fields that \<open>useRating\<close> reads: the
  task identifier, the optional doer identifier (unset until the task is claimed) and the
  two verification and two rating-completion flags of the data model.
\<close>

record TaskType =
  task_id :: string
  doerId :: "string option"
  isRequestorVerified :: bool
  isDoerVerified :: bool
  isRequestorRated :: bool
  isDoerRated :: bool

text \<open>
  Modelled from the spec: the authenticated user comes from \<open>useAuth\<close> in
  \<open>@/context/AuthContext\<close>, also absent; the hook only reads \<open>user?.id\<close>, so a user is
  its identifier and \<open>None\<close> stands for nobody being signed in.
\<close>

record AuthUser =
  auth_id :: string

definition user_id_opt :: "AuthUser option \<Rightarrow> string option" where
  "user_id_opt user = map_option auth_id user"

text \<open>The three \<open>useState\<close> cells of the hook.\<close>

record hook_state =
  isRatingDialogOpen :: bool
  isEnforcedRating :: bool
  currentTaskForRating :: "TaskType option"

definition initial_state :: hook_state where
  "initial_state =
     \<lparr>isRatingDialogOpen = False, isEnforcedRating = False, currentTaskForRating = None\<rparr>"

text \<open>
  A \<open>useState\<close> setter does not change the state that the running callback and its
  callees can read: it queues an update, which the next render applies. A setter is
  modelled by the effect of its update on the state; the state a hook operation returns
  is the one the next render shows, with the updates of that call applied in the order
  they were queued, and every call of a hook function reads the state left by the
  previous one.
\<close>

definition setIsRatingDialogOpen :: "bool \<Rightarrow> hook_state \<Rightarrow> hook_state" where
  "setIsRatingDialogOpen v s = s\<lparr>isRatingDialogOpen := v\<rparr>"

definition setIsEnforcedRating :: "bool \<Rightarrow> hook_state \<Rightarrow> hook_state" where
  "setIsEnforcedRating v s = s\<lparr>isEnforcedRating := v\<rparr>"

definition setCurrentTaskForRating :: "TaskType option \<Rightarrow> hook_state \<Rightarrow> hook_state" where
  "setCurrentTaskForRating v s = s\<lparr>currentTaskForRating := v\<rparr>"

text \<open>The two callbacks handed to \<open>Array.prototype.find\<close>.\<close>

definition doer_find_pred :: "AuthUser option \<Rightarrow> TaskType \<Rightarrow> bool" where
  "doer_find_pred user task \<longleftrightarrow>
     doerId task = user_id_opt user \<and> isRequestorVerified task \<and> isDoerVerified task
     \<and> \<not> isDoerRated task"

definition requestor_find_pred :: "TaskType \<Rightarrow> bool" where
  "requestor_find_pred task \<longleftrightarrow>
     isRequestorVerified task \<and> isDoerVerified task \<and> \<not> isRequestorRated task"

definition checkForTasksNeedingRating ::
  "AuthUser option \<Rightarrow> TaskType list \<Rightarrow> TaskType list \<Rightarrow> hook_state \<Rightarrow> hook_state \<times> bool" where
  "checkForTasksNeedingRating user tasks appliedTasks s =
     (case find (doer_find_pred user) appliedTasks of
        Some doerTask \<Rightarrow>
          (setIsEnforcedRating True
             (setIsRatingDialogOpen True (setCurrentTaskForRating (Some doerTask) s)), True)
      | None \<Rightarrow>
          (case find requestor_find_pred tasks of
             Some requestorTask \<Rightarrow>
               (setIsEnforcedRating True
                  (setIsRatingDialogOpen True
                     (setCurrentTaskForRating (Some requestorTask) s)), True)
           | None \<Rightarrow> (s, False)))"

text \<open>
  The external submission function \<open>handleSubmitRating\<close> is a parameter. Its promise
  either resolves with a boolean or rejects; the first argument of the model is the
  prompt state the hook exposes at the moment it is invoked, which is what a test double
  inspecting the hook at that moment would see. The setter calls that precede the
  invocation have only queued their updates by then, so this is the state the call of
  \<open>onSubmitRating\<close> started from.
\<close>

datatype submit_outcome = Resolved bool | Rejected

type_synonym submit_fn = "hook_state \<Rightarrow> string \<Rightarrow> real \<Rightarrow> submit_outcome"

text \<open>
  One run of \<open>onSubmitRating\<close>: the state it leaves, the boolean its promise resolves
  with, and the invocations of the external function it made, each with the prompt state
  at that moment.
\<close>

record submit_run =
  state_after :: hook_state
  returned :: bool
  external_calls :: "(hook_state \<times> string \<times> real) list"

definition onSubmitRating :: "submit_fn \<Rightarrow> real \<Rightarrow> hook_state \<Rightarrow> submit_run" where
  "onSubmitRating handleSubmitRating rating s =
     (case currentTaskForRating s of
        None \<Rightarrow> \<lparr>state_after = s, returned = False, external_calls = []\<rparr>
      | Some cur \<Rightarrow>
          (let taskId = task_id cur;
               s1 = setIsRatingDialogOpen False s;
               s2 = setCurrentTaskForRating None s1;
               s3 = setIsEnforcedRating False s2
           in (case handleSubmitRating s taskId rating of
                 Resolved result \<Rightarrow>
                   \<lparr>state_after = s3, returned = result,
                    external_calls = [(s, taskId, rating)]\<rparr>
               | Rejected \<Rightarrow>
                   \<lparr>state_after = s3, returned = False,
                    external_calls = [(s, taskId, rating)]\<rparr>)))"

text \<open>
  The states the hook can be in: the initial one, and any state left by a call of either
  operation, with whatever task lists, user, score and external function the call sees.
\<close>

inductive reachable :: "hook_state \<Rightarrow> bool" where
  reach_init: "reachable initial_state"
| reach_check:
    "reachable s \<Longrightarrow> reachable (fst (checkForTasksNeedingRating user tasks appliedTasks s))"
| reach_submit:
    "reachable s \<Longrightarrow> reachable (state_after (onSubmitRating handleSubmitRating rating s))"

text \<open>The predicates of the specification, for a signed-in user.\<close>

definition doer_owes_rating :: "AuthUser \<Rightarrow> TaskType \<Rightarrow> bool" where
  "doer_owes_rating u task \<longleftrightarrow>
     doerId task = Some (auth_id u) \<and> isRequestorVerified task \<and> isDoerVerified task
     \<and> \<not> isDoerRated task"

definition requestor_owes_rating :: "TaskType \<Rightarrow> bool" where
  "requestor_owes_rating task \<longleftrightarrow>
     isRequestorVerified task \<and> isDoerVerified task \<and> \<not> isRequestorRated task"

text \<open>
  \<open>first_in P xs x\<close>: \<open>x\<close> is the first element of \<open>xs\<close>, in list order, that
  satisfies \<open>P\<close>.
\<close>

definition first_in :: "('a \<Rightarrow> bool) \<Rightarrow> 'a list \<Rightarrow> 'a \<Rightarrow> bool" where
  "first_in P xs x \<longleftrightarrow> (\<exists>i<length xs. xs ! i = x \<and> P x \<and> (\<forall>j<i. \<not> P (xs ! j)))"


section \<open>Level computation (src/components/UserStatistics.tsx)\<close>

record level_info =
  level :: string
  badge :: string
  color :: string

definition getUserLevel :: "int \<Rightarrow> level_info" where
  "getUserLevel completedTasks =
     (if completedTasks \<ge> 50 then
        \<lparr>level = ''Expert'', badge = ''Expert'', color = ''bg-purple-600''\<rparr>
      else if completedTasks \<ge> 20 then
        \<lparr>level = ''Advanced'', badge = ''Advanced'', color = ''bg-blue-600''\<rparr>
      else if completedTasks \<ge> 10 then
        \<lparr>level = ''Intermediate'', badge = ''Intermediate'', color = ''bg-green-600''\<rparr>
      else if completedTasks \<ge> 5 then
        \<lparr>level = ''Beginner+'', badge = ''Beginner+'', color = ''bg-yellow-600''\<rparr>
      else
        \<lparr>level = ''Beginner'', badge = ''Beginner'', color = ''bg-gray-600''\<rparr>)"

text \<open>The denominator shown beside "Progress to next level".\<close>

definition progress_denominator :: "string \<Rightarrow> int" where
  "progress_denominator lvl =
     (if lvl = ''Beginner'' then 5 else if lvl = ''Regular'' then 20
      else if lvl = ''Pro'' then 50 else 100)"

section \<open>Leaderboard aggregation (the Leaderboard page, src/unnamed/part_000)\<close>

text \<open>
  The creator pass and the doer pass of \<open>fetchLeaderboardData\<close> are the same statements
  up to the names \<open>creator_id\<close>/\<open>doer_id\<close> and \<open>creator_rating\<close>/\<open>doer_rating\<close>. A row
  of a task query therefore carries the identifier of the role that query selects and the
  status; a row of a rating query carries the user and the average of that role. The
  average is \<open>None\<close> when the fetched value is not a number.
\<close>

record task_row =
  role_user_id :: "string option"
  status :: string

record rating_row =
  user_id :: "string option"
  role_rating :: "real option"

record profile =
  p_username :: "string option"
  p_avatar_url :: "string option"

text \<open>The values of \<open>creatorMap\<close>/\<open>doerMap\<close>, and the interface \<open>LeaderboardUser\<close>.\<close>

record accumulator =
  acc_id :: string
  acc_rating :: "real option"
  acc_tasksCount :: int
  acc_reward :: int

record LeaderboardUser =
  lb_id :: string
  username :: string
  avatar_url :: "string option"
  rating :: "real option"
  tasksCount :: int
  reward :: int

text \<open>
  A JavaScript \<open>Map\<close> iterates in insertion order, and \<open>set\<close> on a key that is present
  keeps its position: an association list with \<open>map_of\<close> for \<open>has\<close>/\<open>get\<close> and
  \<open>AList.update\<close> for \<open>set\<close>.
\<close>

type_synonym acc_map = "(string \<times> accumulator) list"

text \<open>The body of the \<open>forEach\<close> over the task rows.\<close>

definition count_task :: "acc_map \<Rightarrow> task_row \<Rightarrow> acc_map" where
  "count_task m task =
     (case role_user_id task of
        None \<Rightarrow> m
      | Some k \<Rightarrow>
          if k = [] then m
          else (case map_of m k of
                  Some existing \<Rightarrow>
                    if status task = ''completed''
                    then AList.update k
                           (existing\<lparr>acc_tasksCount := acc_tasksCount existing + 1,
                                      acc_reward := acc_reward existing + 100\<rparr>) m
                    else m
                | None \<Rightarrow>
                    AList.update k
                      \<lparr>acc_id = k, acc_rating = None,
                       acc_tasksCount = (if status task = ''completed'' then 1 else 0),
                       acc_reward = (if status task = ''completed'' then 100 else 0)\<rparr> m))"

definition aggregate_tasks :: "task_row list \<Rightarrow> acc_map" where
  "aggregate_tasks tasksData = foldl count_task [] tasksData"

text \<open>The body of the \<open>forEach\<close> over the rating rows.\<close>

definition add_rating :: "acc_map \<Rightarrow> rating_row \<Rightarrow> acc_map" where
  "add_rating m r =
     (case user_id r of
        None \<Rightarrow> m
      | Some k \<Rightarrow>
          if k = [] then m
          else (case role_rating r of
                  None \<Rightarrow> m
                | Some x \<Rightarrow>
                    (case map_of m k of
                       Some existing \<Rightarrow> AList.update k (existing\<lparr>acc_rating := Some x\<rparr>) m
                     | None \<Rightarrow>
                         AList.update k
                           \<lparr>acc_id = k, acc_rating = Some x, acc_tasksCount = 0,
                            acc_reward = 0\<rparr> m)))"

definition merge_ratings :: "acc_map \<Rightarrow> rating_row list \<Rightarrow> acc_map" where
  "merge_ratings m ratingsData = foldl add_rating m ratingsData"

text \<open>
  The loop over \<open>creatorMap.entries()\<close>: one profile lookup and one \<open>push\<close> per entry.
  The lookup is a function of the identifier; \<open>None\<close> is the \<open>null\<close> that \<open>single()\<close>
  gives when no profile row is found.
\<close>

definition resolve_user :: "(string \<Rightarrow> profile option) \<Rightarrow> string \<times> accumulator \<Rightarrow> LeaderboardUser" where
  "resolve_user profileOf entry =
     (case entry of (k, d) \<Rightarrow>
        \<lparr>lb_id = k,
         username =
           (case profileOf k of
              None \<Rightarrow> ''Unknown User''
            | Some p \<Rightarrow>
                (case p_username p of
                   None \<Rightarrow> ''Unknown User''
                 | Some n \<Rightarrow> if n = [] then ''Unknown User'' else n)),
         avatar_url = (case profileOf k of None \<Rightarrow> None | Some p \<Rightarrow> p_avatar_url p),
         rating = acc_rating d,
         tasksCount = acc_tasksCount d,
         reward = acc_reward d\<rparr>)"

definition resolve_profiles :: "(string \<Rightarrow> profile option) \<Rightarrow> acc_map \<Rightarrow> LeaderboardUser list" where
  "resolve_profiles profileOf m = map (resolve_user profileOf) m"

text \<open>The comparator handed to \<open>sort\<close>.\<close>

definition rating_or_zero :: "real option \<Rightarrow> real" where
  "rating_or_zero r = (case r of Some x \<Rightarrow> x | None \<Rightarrow> 0)"

definition compareUsers :: "LeaderboardUser \<Rightarrow> LeaderboardUser \<Rightarrow> real" where
  "compareUsers a b =
     (if reward b \<noteq> reward a then real_of_int (reward b - reward a)
      else (let aRating = rating_or_zero (rating a); bRating = rating_or_zero (rating b)
            in bRating - aRating))"

text \<open>
  \<open>Array.prototype.sort\<close> is stable; with a comparator that is a consistent ordering its
  result is the stably sorted arrangement of the array, which insertion from the right
  computes.
\<close>

fun insert_by :: "('a \<Rightarrow> 'a \<Rightarrow> real) \<Rightarrow> 'a \<Rightarrow> 'a list \<Rightarrow> 'a list" where
  "insert_by cmp x [] = [x]"
| "insert_by cmp x (y # ys) =
     (if cmp x y \<le> 0 then x # y # ys else y # insert_by cmp x ys)"

definition sort_by :: "('a \<Rightarrow> 'a \<Rightarrow> real) \<Rightarrow> 'a list \<Rightarrow> 'a list" where
  "sort_by cmp xs = foldr (insert_by cmp) xs []"

text \<open>The users pushed for one role, before and after \<open>.sort(...)\<close>, and the top ten.\<close>

definition pushed_users ::
  "task_row list \<Rightarrow> rating_row list \<Rightarrow> (string \<Rightarrow> profile option) \<Rightarrow> LeaderboardUser list" where
  "pushed_users tasksData ratingsData profileOf =
     resolve_profiles profileOf (merge_ratings (aggregate_tasks tasksData) ratingsData)"

definition ranked_users ::
  "task_row list \<Rightarrow> rating_row list \<Rightarrow> (string \<Rightarrow> profile option) \<Rightarrow> LeaderboardUser list" where
  "ranked_users tasksData ratingsData profileOf =
     sort_by compareUsers (pushed_users tasksData ratingsData profileOf)"

definition top_users ::
  "task_row list \<Rightarrow> rating_row list \<Rightarrow> (string \<Rightarrow> profile option) \<Rightarrow> LeaderboardUser list" where
  "top_users tasksData ratingsData profileOf =
     take 10 (ranked_users tasksData ratingsData profileOf)"

text \<open>
  A query either fails (\<open>error\<close> is set and the function throws into its \<open>catch\<close>,
  which only logs, before \<open>finally\<close> clears the loading flag) or yields \<open>data\<close>, which
  may be \<open>null\<close>; a \<open>null\<close> is skipped by \<open>if (tasksData)\<close> and leaves the map as it
  is.
\<close>

datatype 'a response = QueryError | QueryData "'a list option"

definition data_rows :: "'a response \<Rightarrow> 'a list" where
  "data_rows r = (case r of QueryData (Some rows) \<Rightarrow> rows | _ \<Rightarrow> [])"

record responses =
  tasksResp :: "task_row response"
  ratingsResp :: "rating_row response"
  doersResp :: "task_row response"
  doerRatingsResp :: "rating_row response"
  profileResp :: "string \<Rightarrow> profile option"

record page_state =
  topCreators :: "LeaderboardUser list"
  topDoers :: "LeaderboardUser list"
  isLoading :: bool

definition initial_page :: page_state where
  "initial_page = \<lparr>topCreators = [], topDoers = [], isLoading = True\<rparr>"

definition fetchLeaderboardData :: "responses \<Rightarrow> page_state \<Rightarrow> page_state" where
  "fetchLeaderboardData db st =
     (let st1 = st\<lparr>isLoading := True\<rparr> in
      if tasksResp db = QueryError then st1\<lparr>isLoading := False\<rparr>
      else if ratingsResp db = QueryError then st1\<lparr>isLoading := False\<rparr>
      else
        (let st2 = st1\<lparr>topCreators :=
                     top_users (data_rows (tasksResp db)) (data_rows (ratingsResp db))
                       (profileResp db)\<rparr> in
         if doersResp db = QueryError then st2\<lparr>isLoading := False\<rparr>
         else if doerRatingsResp db = QueryError then st2\<lparr>isLoading := False\<rparr>
         else
           st2\<lparr>topDoers :=
                  top_users (data_rows (doersResp db)) (data_rows (doerRatingsResp db))
                    (profileResp db),
               isLoading := False\<rparr>))"

text \<open>
  The number of rows of a role's task query that are attributed to \<open>k\<close> and have status
  "completed".
\<close>

definition completed_count :: "string \<Rightarrow> task_row list \<Rightarrow> int" where
  "completed_count k rows =
     int (length (filter (\<lambda>t. role_user_id t = Some k \<and> status t = ''completed'') rows))"

text \<open>
  The order the claims speak of: a larger reward first, and among equal rewards a larger
  rating average first, an absent average counting as 0.
\<close>

definition ranks_before :: "LeaderboardUser \<Rightarrow> LeaderboardUser \<Rightarrow> bool" where
  "ranks_before a b \<longleftrightarrow>
     reward a > reward b
     \<or> (reward a = reward b \<and> rating_or_zero (rating a) \<ge> rating_or_zero (rating b))"

text \<open>
  The rating average that ends up attached to \<open>k\<close>: each rating row of \<open>k\<close> with a
  numeric average overwrites the one before, so it is the average of the last such row.
\<close>

definition attached_rating :: "string \<Rightarrow> rating_row list \<Rightarrow> real option" where
  "attached_rating k rs =
     (let qs = filter (\<lambda>r. user_id r = Some k \<and> role_rating r \<noteq> None) rs
      in if qs = [] then None else role_rating (last qs))"

section \<open>Concrete inputs\<close>

text \<open>
  A signed-in user, a task on which that user owes the doer rating, a task on which the
  requestor rating is owed, and a task with nothing owed.
\<close>

definition example_user :: AuthUser where
  "example_user = \<lparr>auth_id = ''u1''\<rparr>"

definition doer_task :: TaskType where
  "doer_task =
     \<lparr>task_id = ''t1'', doerId = Some ''u1'', isRequestorVerified = True,
      isDoerVerified = True, isRequestorRated = True, isDoerRated = False\<rparr>"

definition requestor_task :: TaskType where
  "requestor_task =
     \<lparr>task_id = ''t2'', doerId = Some ''u2'', isRequestorVerified = True,
      isDoerVerified = True, isRequestorRated = False, isDoerRated = True\<rparr>"

definition settled_task :: TaskType where
  "settled_task =
     \<lparr>task_id = ''t3'', doerId = Some ''u1'', isRequestorVerified = True,
      isDoerVerified = True, isRequestorRated = True, isDoerRated = True\<rparr>"

definition open_prompt :: hook_state where
  "open_prompt =
     \<lparr>isRatingDialogOpen = True, isEnforcedRating = True,
      currentTaskForRating = Some doer_task\<rparr>"

text \<open>
  A test double for the submission function that inspects the prompt state it is called
  in and reports success exactly when it finds the prompt closed and cleared; one that
  always reports success; and one whose promise rejects.
\<close>

definition inspecting_double :: submit_fn where
  "inspecting_double obs taskId score =
     Resolved (\<not> isRatingDialogOpen obs \<and> currentTaskForRating obs = None
               \<and> \<not> isEnforcedRating obs)"

definition accepting_double :: submit_fn where
  "accepting_double obs taskId score = Resolved True"

definition rejecting_double :: submit_fn where
  "rejecting_double obs taskId score = Rejected"

text \<open>
  The scenario of the specification: creators A and B with three completed tasks each, A
  rated 4.5 and B unrated; doer D with one completed task and doer C known to the rating
  table only. Only A has a profile row.
\<close>

definition scenario_tasks :: "task_row list" where
  "scenario_tasks =
     [\<lparr>role_user_id = Some ''B'', status = ''completed''\<rparr>,
      \<lparr>role_user_id = Some ''A'', status = ''completed''\<rparr>,
      \<lparr>role_user_id = Some ''B'', status = ''open''\<rparr>,
      \<lparr>role_user_id = Some ''A'', status = ''completed''\<rparr>,
      \<lparr>role_user_id = Some ''B'', status = ''completed''\<rparr>,
      \<lparr>role_user_id = None, status = ''completed''\<rparr>,
      \<lparr>role_user_id = Some ''A'', status = ''completed''\<rparr>,
      \<lparr>role_user_id = Some ''B'', status = ''completed''\<rparr>]"

definition scenario_ratings :: "rating_row list" where
  "scenario_ratings = [\<lparr>user_id = Some ''A'', role_rating = Some (9 / 2)\<rparr>]"

definition scenario_doer_tasks :: "task_row list" where
  "scenario_doer_tasks = [\<lparr>role_user_id = Some ''D'', status = ''completed''\<rparr>]"

definition rating_of_C :: rating_row where
  "rating_of_C = \<lparr>user_id = Some ''C'', role_rating = Some 3\<rparr>"

definition scenario_profiles :: "string \<Rightarrow> profile option" where
  "scenario_profiles k =
     (if k = ''A'' then Some \<lparr>p_username = Some ''alice'', p_avatar_url = None\<rparr> else None)"

definition scenario_db :: responses where
  "scenario_db =
     \<lparr>tasksResp = QueryData (Some scenario_tasks),
      ratingsResp = QueryData (Some scenario_ratings),
      doersResp = QueryData (Some scenario_doer_tasks),
      doerRatingsResp = QueryData (Some [rating_of_C]),
      profileResp = scenario_profiles\<rparr>"

definition scenario_A :: LeaderboardUser where
  "scenario_A =
     \<lparr>lb_id = ''A'', username = ''alice'', avatar_url = None, rating = Some (9 / 2),
      tasksCount = 3, reward = 300\<rparr>"

definition scenario_B :: LeaderboardUser where
  "scenario_B =
     \<lparr>lb_id = ''B'', username = ''Unknown User'', avatar_url = None, rating = None,
      tasksCount = 3, reward = 300\<rparr>"

definition scenario_C :: LeaderboardUser where
  "scenario_C =
     \<lparr>lb_id = ''C'', username = ''Unknown User'', avatar_url = None, rating = Some 3,
      tasksCount = 0, reward = 0\<rparr>"

definition scenario_D :: LeaderboardUser where
  "scenario_D =
     \<lparr>lb_id = ''D'', username = ''Unknown User'', avatar_url = None, rating = None,
      tasksCount = 1, reward = 100\<rparr>"

text \<open>Ten doers with one completed task each, and no profile rows at all.\<close>

definition crowded_tasks :: "task_row list" where
  "crowded_tasks =
     [\<lparr>role_user_id = Some ''u0'', status = ''completed''\<rparr>,
      \<lparr>role_user_id = Some ''u1'', status = ''completed''\<rparr>,
      \<lparr>role_user_id = Some ''u2'', status = ''completed''\<rparr>,
      \<lparr>role_user_id = Some ''u3'', status = ''completed''\<rparr>,
      \<lparr>role_user_id = Some ''u4'', status = ''completed''\<rparr>,
      \<lparr>role_user_id = Some ''u5'', status = ''completed''\<rparr>,
      \<lparr>role_user_id = Some ''u6'', status = ''completed''\<rparr>,
      \<lparr>role_user_id = Some ''u7'', status = ''completed''\<rparr>,
      \<lparr>role_user_id = Some ''u8'', status = ''completed''\<rparr>,
      \<lparr>role_user_id = Some ''u9'', status = ''completed''\<rparr>]"

definition no_profiles :: "string \<Rightarrow> profile option" where
  "no_profiles k = None"

definition rating_without_user :: rating_row where
  "rating_without_user = \<lparr>user_id = Some [], role_rating = Some 3\<rparr>"

section \<open>Properties of the rating enforcement hook\<close>

lemma find_first_in: "find P xs = Some x \<longleftrightarrow> first_in P xs x"
  unfolding first_in_def find_Some_iff by auto

lemma doer_pred_signed_in: "doer_find_pred (Some u) = doer_owes_rating u"
  by (rule ext) (simp add: doer_find_pred_def doer_owes_rating_def user_id_opt_def)

lemma requestor_pred_eq: "requestor_find_pred = requestor_owes_rating"
  by (rule ext) (simp add: requestor_find_pred_def requestor_owes_rating_def)

lemmas setters = setIsRatingDialogOpen_def setIsEnforcedRating_def setCurrentTaskForRating_def

lemmas example_hook_defs =
  example_user_def doer_task_def requestor_task_def settled_task_def open_prompt_def
  inspecting_double_def accepting_double_def rejecting_double_def initial_state_def

text \<open>
  Claim C1. For a signed-in user, \<open>checkForTasksNeedingRating\<close> returns true exactly when
  some applied task satisfies the doer-owes-rating predicate or some visible task
  satisfies the requestor-owes-rating predicate. When an applied task owes the doer
  rating, the task made current is the first such applied task in list order; when none
  does but a visible task owes the requestor rating, it is the first such visible task.
  So the whole doer pass comes before the requestor pass.
\<close>

theorem check_selects_first_owed_task:
  "(snd (checkForTasksNeedingRating (Some u) tasks appliedTasks s) \<longleftrightarrow>
      (\<exists>t\<in>set appliedTasks. doer_owes_rating u t) \<or> (\<exists>t\<in>set tasks. requestor_owes_rating t))
   \<and> ((\<exists>t\<in>set appliedTasks. doer_owes_rating u t) \<longrightarrow>
        (\<exists>t. currentTaskForRating (fst (checkForTasksNeedingRating (Some u) tasks appliedTasks s)) = Some t
             \<and> first_in (doer_owes_rating u) appliedTasks t))
   \<and> (\<not> (\<exists>t\<in>set appliedTasks. doer_owes_rating u t) \<and> (\<exists>t\<in>set tasks. requestor_owes_rating t) \<longrightarrow>
        (\<exists>t. currentTaskForRating (fst (checkForTasksNeedingRating (Some u) tasks appliedTasks s)) = Some t
             \<and> first_in requestor_owes_rating tasks t))"
proof (cases "find (doer_owes_rating u) appliedTasks")
  case None
  note dn = this
  then have nod: "\<not> (\<exists>t\<in>set appliedTasks. doer_owes_rating u t)"
    by (simp add: find_None_iff)
  show ?thesis
  proof (cases "find requestor_owes_rating tasks")
    case None
    then have "\<not> (\<exists>t\<in>set tasks. requestor_owes_rating t)" by (simp add: find_None_iff)
    with nod dn None show ?thesis
      by (simp add: checkForTasksNeedingRating_def doer_pred_signed_in requestor_pred_eq)
  next
    case (Some t)
    then have "first_in requestor_owes_rating tasks t" by (simp add: find_first_in)
    moreover from Some have "\<exists>t\<in>set tasks. requestor_owes_rating t"
      by (metis find_None_iff option.distinct(1))
    ultimately show ?thesis using nod dn Some
      by (simp add: checkForTasksNeedingRating_def doer_pred_signed_in requestor_pred_eq setters)
  qed
next
  case (Some t)
  then have "first_in (doer_owes_rating u) appliedTasks t" by (simp add: find_first_in)
  moreover from Some have "\<exists>t\<in>set appliedTasks. doer_owes_rating u t"
    by (metis find_None_iff option.distinct(1))
  ultimately show ?thesis using Some
    by (simp add: checkForTasksNeedingRating_def doer_pred_signed_in setters)
qed

theorem check_selects_first_owed_task_witness:
  "doer_owes_rating example_user doer_task
   \<and> snd (checkForTasksNeedingRating (Some example_user) [requestor_task]
            [settled_task, doer_task] initial_state)
   \<and> first_in (doer_owes_rating example_user) [settled_task, doer_task] doer_task
   \<and> \<not> doer_owes_rating example_user settled_task
   \<and> requestor_owes_rating requestor_task
   \<and> snd (checkForTasksNeedingRating (Some example_user) [settled_task, requestor_task]
            [settled_task] initial_state)
   \<and> first_in requestor_owes_rating [settled_task, requestor_task] requestor_task"
proof -
  let ?r1 = "checkForTasksNeedingRating (Some example_user) [requestor_task]
               [settled_task, doer_task] initial_state"
  let ?r2 = "checkForTasksNeedingRating (Some example_user) [settled_task, requestor_task]
               [settled_task] initial_state"
  have owes: "doer_owes_rating example_user doer_task"
    "\<not> doer_owes_rating example_user settled_task" "requestor_owes_rating requestor_task"
    by (simp_all add: doer_owes_rating_def requestor_owes_rating_def example_hook_defs)
  have cur1: "currentTaskForRating (fst ?r1) = Some doer_task"
    by (simp add: checkForTasksNeedingRating_def doer_find_pred_def user_id_opt_def setters
          example_hook_defs)
  have cur2: "currentTaskForRating (fst ?r2) = Some requestor_task"
    by (simp add: checkForTasksNeedingRating_def doer_find_pred_def requestor_find_pred_def
          user_id_opt_def setters example_hook_defs)
  note t1 = check_selects_first_owed_task
              [of example_user "[requestor_task]" "[settled_task, doer_task]" initial_state]
  note t2 = check_selects_first_owed_task
              [of example_user "[settled_task, requestor_task]" "[settled_task]" initial_state]
  from t1 owes have "snd ?r1" by simp
  moreover from t1 owes cur1
  have "first_in (doer_owes_rating example_user) [settled_task, doer_task] doer_task"
    by auto
  moreover from t2 owes have "snd ?r2" by simp
  moreover from t2 owes cur2
  have "first_in requestor_owes_rating [settled_task, requestor_task] requestor_task"
    by auto
  ultimately show ?thesis using owes by simp
qed

text \<open>
  Claim C6. Calling \<open>checkForTasksNeedingRating\<close> a second time, on the state the first
  call left and with the same tasks, applied tasks and user, returns the same boolean and
  leaves exactly the state of the first call: the same current task, the same flags.
\<close>

theorem check_twice_same_result:
  "checkForTasksNeedingRating user tasks appliedTasks
     (fst (checkForTasksNeedingRating user tasks appliedTasks s))
   = checkForTasksNeedingRating user tasks appliedTasks s"
  by (simp add: checkForTasksNeedingRating_def setters split: option.splits)

theorem check_twice_same_result_witness:
  "checkForTasksNeedingRating (Some example_user) [requestor_task] [doer_task] initial_state
     = (open_prompt, True)
   \<and> checkForTasksNeedingRating (Some example_user) [requestor_task] [doer_task] open_prompt
     = (open_prompt, True)"
proof -
  have first: "checkForTasksNeedingRating (Some example_user) [requestor_task] [doer_task]
                 initial_state = (open_prompt, True)"
    by (simp add: checkForTasksNeedingRating_def doer_find_pred_def user_id_opt_def setters
          example_hook_defs)
  from check_twice_same_result
         [of "Some example_user" "[requestor_task]" "[doer_task]" initial_state]
  show ?thesis by (simp add: first)
qed




text \<open>
  Claim C4. With no current task, \<open>onSubmitRating\<close> returns failure for every score,
  makes no invocation of the external submission function, and leaves the prompt state as
  it was.
\<close>

theorem submit_without_task_fails:
  "currentTaskForRating s = None \<Longrightarrow>
   onSubmitRating h score s = \<lparr>state_after = s, returned = False, external_calls = []\<rparr>"
  by (simp add: onSubmitRating_def)

theorem submit_without_task_fails_witness:
  "currentTaskForRating initial_state = None
   \<and> onSubmitRating inspecting_double 4 initial_state
       = \<lparr>state_after = initial_state, returned = False, external_calls = []\<rparr>"
proof -
  have "currentTaskForRating initial_state = None"
    by (simp add: initial_state_def)
  then show ?thesis
    using submit_without_task_fails [of initial_state inspecting_double 4] by simp
qed

text \<open>
  Claim C5. With a current task set, \<open>onSubmitRating\<close> returns the boolean the external
  submission function resolved with, and returns failure when the external call rejects
  or throws; in both cases it returns a value and raises nothing.
\<close>

theorem submit_returns_external_result:
  "currentTaskForRating s = Some t \<Longrightarrow>
   \<exists>obs. external_calls (onSubmitRating h score s) = [(obs, task_id t, score)]
        \<and> returned (onSubmitRating h score s)
            = (case h obs (task_id t) score of Resolved b \<Rightarrow> b | Rejected \<Rightarrow> False)"
  by (simp add: onSubmitRating_def Let_def setters split: submit_outcome.splits)

theorem submit_returns_external_result_witness:
  "currentTaskForRating open_prompt = Some doer_task
   \<and> accepting_double open_prompt (task_id doer_task) 5 = Resolved True
   \<and> returned (onSubmitRating accepting_double 5 open_prompt) = True
   \<and> rejecting_double open_prompt (task_id doer_task) 5 = Rejected
   \<and> returned (onSubmitRating rejecting_double 5 open_prompt) = False"
proof -
  have cur: "currentTaskForRating open_prompt = Some doer_task"
    by (simp add: open_prompt_def)
  have calls: "external_calls (onSubmitRating h 5 open_prompt)
                 = [(open_prompt, task_id doer_task, 5)]" for h
    by (simp add: onSubmitRating_def Let_def setters example_hook_defs
          split: submit_outcome.splits)
  have ext: "accepting_double open_prompt (task_id doer_task) 5 = Resolved True"
    "rejecting_double open_prompt (task_id doer_task) 5 = Rejected"
    by (simp_all add: example_hook_defs)
  from submit_returns_external_result [OF cur, of accepting_double 5]
  have "returned (onSubmitRating accepting_double 5 open_prompt) = True"
    by (simp add: calls ext)
  moreover from submit_returns_external_result [OF cur, of rejecting_double 5]
  have "returned (onSubmitRating rejecting_double 5 open_prompt) = False"
    by (simp add: calls ext)
  ultimately show ?thesis using cur ext by simp
qed

text \<open>
  Claim C10. In every state reachable from the initial hook state by calls of
  \<open>checkForTasksNeedingRating\<close> and \<open>onSubmitRating\<close>, the dialog-open flag, the enforced
  flag and the presence of a current task agree: all three hold or none does.
\<close>

theorem prompt_state_synchronized:
  "reachable s \<Longrightarrow>
   (isRatingDialogOpen s \<longleftrightarrow> isEnforcedRating s)
   \<and> (isEnforcedRating s \<longleftrightarrow> currentTaskForRating s \<noteq> None)"
proof (induction rule: reachable.induct)
  case reach_init
  then show ?case by (simp add: initial_state_def)
next
  case (reach_check s user tasks appliedTasks)
  then show ?case by (simp add: checkForTasksNeedingRating_def setters split: option.splits)
next
  case (reach_submit s h score)
  then show ?case by (simp add: onSubmitRating_def Let_def setters split: option.splits submit_outcome.splits)
qed

theorem prompt_state_synchronized_witness:
  "reachable open_prompt
   \<and> (isRatingDialogOpen open_prompt \<longleftrightarrow> isEnforcedRating open_prompt)
   \<and> (isEnforcedRating open_prompt \<longleftrightarrow> currentTaskForRating open_prompt \<noteq> None)"
proof -
  have "fst (checkForTasksNeedingRating (Some example_user) [] [doer_task] initial_state)
        = open_prompt"
    by (simp add: checkForTasksNeedingRating_def doer_find_pred_def user_id_opt_def setters
          example_hook_defs)
  then have r: "reachable open_prompt"
    using reach_check [OF reach_init, of "Some example_user" "[]" "[doer_task]"] by simp
  with prompt_state_synchronized [OF r] show ?thesis by simp
qed

section \<open>Properties of the level computation\<close>

lemma level_names_image:
  "(\<lambda>n. level (getUserLevel n)) ` {0..}
   = {''Beginner'', ''Beginner+'', ''Intermediate'', ''Advanced'', ''Expert''}"
  (is "?f ` _ = ?R")
proof
  have "?f n \<in> ?R" for n
    by (simp add: getUserLevel_def)
  then show "?f ` {0..} \<subseteq> ?R"
    by blast
  have "?f 0 \<in> ?f ` {0..}" "?f 5 \<in> ?f ` {0..}" "?f 10 \<in> ?f ` {0..}" "?f 20 \<in> ?f ` {0..}"
       "?f 50 \<in> ?f ` {0..}"
    by (rule imageI, simp)+
  then show "?R \<subseteq> ?f ` {0..}"
    by (simp add: getUserLevel_def)
qed


text \<open>
  Claim C9. Over the non-negative completed-task counts \<open>getUserLevel\<close> produces exactly
  the five names "Beginner", "Beginner+", "Intermediate", "Advanced" and "Expert", so
  never "Regular" or "Pro"; and for every count whose level is not "Beginner" the
  progress denominator, chosen by comparing the level with "Beginner", "Regular" and
  "Pro", is the default 100.
\<close>

theorem level_names_and_denominator:
  "(\<lambda>n. level (getUserLevel n)) ` {0..}
     = {''Beginner'', ''Beginner+'', ''Intermediate'', ''Advanced'', ''Expert''}
   \<and> level (getUserLevel n) \<noteq> ''Regular'' \<and> level (getUserLevel n) \<noteq> ''Pro''
   \<and> (level (getUserLevel n) \<noteq> ''Beginner'' \<longrightarrow>
        progress_denominator (level (getUserLevel n)) = 100)"
  using level_names_image by (simp add: getUserLevel_def progress_denominator_def)

theorem level_names_and_denominator_witness:
  "level (getUserLevel 7) = ''Beginner+'' \<and> level (getUserLevel 7) \<noteq> ''Beginner''
   \<and> progress_denominator (level (getUserLevel 7)) = 100"
proof -
  have l: "level (getUserLevel 7) = ''Beginner+''"
    by (simp add: getUserLevel_def)
  then have "level (getUserLevel 7) \<noteq> ''Beginner''" by simp
  with level_names_and_denominator [of 7] l show ?thesis by simp
qed

section \<open>Properties of the leaderboard aggregation\<close>

lemma completed_count_snoc:
  "completed_count k (rows @ [t]) =
     completed_count k rows + (if role_user_id t = Some k \<and> status t = ''completed'' then 1 else 0)"
  by (simp add: completed_count_def)

lemma completed_count_absent:
  "Some k \<notin> role_user_id ` set rows \<Longrightarrow> completed_count k rows = 0"
proof -
  assume "Some k \<notin> role_user_id ` set rows"
  then have "\<forall>t\<in>set rows. role_user_id t \<noteq> Some k"
    by (metis imageI)
  then show ?thesis
    by (simp add: completed_count_def filter_empty_conv)
qed

lemma aggregate_tasks_snoc: "aggregate_tasks (rows @ [t]) = count_task (aggregate_tasks rows) t"
  by (simp add: aggregate_tasks_def)

lemma aggregate_tasks_lookup:
  "map_of (aggregate_tasks rows) k =
     (if k \<noteq> [] \<and> Some k \<in> role_user_id ` set rows
      then Some \<lparr>acc_id = k, acc_rating = None, acc_tasksCount = completed_count k rows,
                 acc_reward = 100 * completed_count k rows\<rparr>
      else None)"
proof (induction rows arbitrary: k rule: rev_induct)
  case Nil
  then show ?case by (simp add: aggregate_tasks_def)
next
  case (snoc t rows)
  show ?case
  proof (cases "role_user_id t")
    case None
    then show ?thesis
      by (simp add: aggregate_tasks_snoc count_task_def snoc completed_count_snoc)
  next
    case (Some j)
    show ?thesis
    proof (cases "j = []")
      case True
      with Some show ?thesis
        by (auto simp add: aggregate_tasks_snoc count_task_def snoc completed_count_snoc)
    next
      case False
      with Some show ?thesis
        by (auto simp add: aggregate_tasks_snoc count_task_def snoc completed_count_snoc update_conv'
              completed_count_absent)
    qed
  qed
qed

lemma distinct_count_task: "distinct (map fst m) \<Longrightarrow> distinct (map fst (count_task m t))"
  by (simp add: count_task_def distinct_update split: option.splits)

lemma distinct_aggregate_tasks: "distinct (map fst (aggregate_tasks rows))"
  by (induction rows rule: rev_induct) (simp_all add: aggregate_tasks_def distinct_count_task)

lemma distinct_add_rating: "distinct (map fst m) \<Longrightarrow> distinct (map fst (add_rating m r))"
  by (simp add: add_rating_def distinct_update split: option.splits)

lemma distinct_merge_ratings: "distinct (map fst m) \<Longrightarrow> distinct (map fst (merge_ratings m rs))"
  by (induction rs rule: rev_induct) (simp_all add: merge_ratings_def distinct_add_rating)

lemma attached_rating_snoc:
  "attached_rating k (rs @ [r]) =
     (if user_id r = Some k \<and> role_rating r \<noteq> None then role_rating r else attached_rating k rs)"
  by (simp add: attached_rating_def Let_def)

lemma merge_ratings_snoc: "merge_ratings m (rs @ [r]) = add_rating (merge_ratings m rs) r"
  by (simp add: merge_ratings_def)

lemma merge_ratings_lookup_empty: "map_of (merge_ratings m rs) [] = map_of m []"
  by (induction rs rule: rev_induct)
     (auto simp add: merge_ratings_snoc add_rating_def update_conv' merge_ratings_def split: option.splits)

lemma merge_ratings_lookup:
  "k \<noteq> [] \<Longrightarrow> map_of (merge_ratings m rs) k =
     (case attached_rating k rs of
        None \<Rightarrow> map_of m k
      | Some x \<Rightarrow>
          Some ((case map_of m k of
                   Some a \<Rightarrow> a
                 | None \<Rightarrow> \<lparr>acc_id = k, acc_rating = None, acc_tasksCount = 0, acc_reward = 0\<rparr>)
                \<lparr>acc_rating := Some x\<rparr>))"
proof (induction rs rule: rev_induct)
  case Nil
  then show ?case by (simp add: merge_ratings_def attached_rating_def)
next
  case (snoc r rs)
  then show ?case
    by (auto simp add: merge_ratings_snoc attached_rating_snoc add_rating_def update_conv'
             split: option.splits)
qed


lemma final_lookup:
  assumes "map_of (merge_ratings (aggregate_tasks td) rd) k = Some a"
  shows "k \<noteq> [] \<and> acc_id a = k \<and> acc_tasksCount a = completed_count k td
         \<and> acc_reward a = 100 * completed_count k td \<and> acc_rating a = attached_rating k rd"
proof -
  have ne: "k \<noteq> []"
  proof
    assume "k = []"
    with assms show False
      by (simp add: merge_ratings_lookup_empty aggregate_tasks_lookup)
  qed
  show ?thesis
  proof (cases "Some k \<in> role_user_id ` set td")
    case True
    with ne assms show ?thesis
      by (auto simp add: merge_ratings_lookup aggregate_tasks_lookup split: option.splits)
  next
    case False
    with ne assms show ?thesis
      by (auto simp add: merge_ratings_lookup aggregate_tasks_lookup completed_count_absent
               split: option.splits)
  qed
qed

lemma final_dom:
  "map_of (merge_ratings (aggregate_tasks td) rd) k \<noteq> None \<longleftrightarrow>
     k \<noteq> [] \<and> (Some k \<in> role_user_id ` set td \<or> attached_rating k rd \<noteq> None)"
proof (cases "k = []")
  case True
  then show ?thesis by (simp add: merge_ratings_lookup_empty aggregate_tasks_lookup)
next
  case False
  then show ?thesis
    by (auto simp add: merge_ratings_lookup aggregate_tasks_lookup split: option.splits)
qed

lemma distinct_final: "distinct (map fst (merge_ratings (aggregate_tasks td) rd))"
  by (simp add: distinct_merge_ratings distinct_aggregate_tasks)

lemma compareUsers_le: "compareUsers a b \<le> 0 \<longleftrightarrow> ranks_before a b"
  by (auto simp add: compareUsers_def ranks_before_def Let_def)

lemma ranks_before_total: "\<not> ranks_before a b \<Longrightarrow> ranks_before b a"
  by (auto simp add: ranks_before_def)

lemma ranks_before_trans: "ranks_before a b \<Longrightarrow> ranks_before b c \<Longrightarrow> ranks_before a c"
  by (auto simp add: ranks_before_def)

lemma set_insert_by: "set (insert_by cmp x ys) = insert x (set ys)"
  by (induction ys) auto

lemma length_insert_by: "length (insert_by cmp x ys) = Suc (length ys)"
  by (induction ys) auto

lemma set_sort_by: "set (sort_by cmp xs) = set xs"
  by (induction xs) (simp_all add: sort_by_def set_insert_by)

lemma length_sort_by: "length (sort_by cmp xs) = length xs"
  by (induction xs) (simp_all add: sort_by_def length_insert_by)

lemma sorted_insert_by:
  "sorted_wrt ranks_before ys \<Longrightarrow> sorted_wrt ranks_before (insert_by compareUsers x ys)"
proof (induction ys)
  case Nil
  then show ?case by simp
next
  case (Cons y ys)
  show ?case
  proof (cases "compareUsers x y \<le> 0")
    case True
    then have xy: "ranks_before x y" by (simp add: compareUsers_le)
    then have "\<forall>z\<in>set ys. ranks_before x z"
      using Cons.prems by (auto intro: ranks_before_trans)
    with xy True Cons.prems show ?thesis by simp
  next
    case False
    then have "ranks_before y x"
      by (simp add: compareUsers_le ranks_before_total)
    with False Cons show ?thesis by (auto simp add: set_insert_by)
  qed
qed

lemma sorted_sort_by: "sorted_wrt ranks_before (sort_by compareUsers xs)"
proof (induction xs)
  case Nil
  then show ?case by (simp add: sort_by_def)
next
  case (Cons x xs)
  then show ?case
    using sorted_insert_by [of "sort_by compareUsers xs" x] by (simp add: sort_by_def)
qed

lemma distinct_map_insert_by:
  "distinct (map f (insert_by cmp x ys)) \<longleftrightarrow> f x \<notin> f ` set ys \<and> distinct (map f ys)"
  by (induction ys) (auto simp add: set_insert_by)

lemma distinct_map_sort_by: "distinct (map f (sort_by cmp xs)) \<longleftrightarrow> distinct (map f xs)"
  by (induction xs) (simp_all add: sort_by_def distinct_map_insert_by set_sort_by [unfolded sort_by_def])

lemma lb_id_resolve_user: "lb_id (resolve_user pf e) = fst e"
  by (cases e) (simp add: resolve_user_def)

lemma map_lb_id_pushed:
  "map lb_id (pushed_users td rd pf) = map fst (merge_ratings (aggregate_tasks td) rd)"
  by (simp add: pushed_users_def resolve_profiles_def lb_id_resolve_user)

lemma pushed_user_acc:
  assumes "e \<in> set (pushed_users td rd pf)"
  shows "\<exists>a. map_of (merge_ratings (aggregate_tasks td) rd) (lb_id e) = Some a
             \<and> e = resolve_user pf (lb_id e, a)"
proof -
  from assms obtain k a where ka: "(k, a) \<in> set (merge_ratings (aggregate_tasks td) rd)"
    and e: "e = resolve_user pf (k, a)"
    by (auto simp add: pushed_users_def resolve_profiles_def)
  from ka have "map_of (merge_ratings (aggregate_tasks td) rd) k = Some a"
    by (simp add: distinct_final)
  with e show ?thesis by (simp add: lb_id_resolve_user)
qed

lemma pushed_user_fields:
  assumes "e \<in> set (pushed_users td rd pf)"
  shows "lb_id e \<noteq> [] \<and> tasksCount e = completed_count (lb_id e) td
         \<and> reward e = 100 * completed_count (lb_id e) td
         \<and> rating e = attached_rating (lb_id e) rd"
proof -
  from pushed_user_acc [OF assms] obtain a
    where a: "map_of (merge_ratings (aggregate_tasks td) rd) (lb_id e) = Some a"
      and e: "e = resolve_user pf (lb_id e, a)" by blast
  have "tasksCount e = acc_tasksCount a" "reward e = acc_reward a" "rating e = acc_rating a"
    by (subst e, simp add: resolve_user_def)+
  with final_lookup [OF a] show ?thesis by simp
qed

lemma set_top_users: "set (top_users td rd pf) \<subseteq> set (pushed_users td rd pf)"
  using set_take_subset [of 10 "ranked_users td rd pf"]
  by (simp add: top_users_def ranked_users_def set_sort_by)

lemma top_users_props:
  "(\<forall>e\<in>set (top_users td rd pf). reward e = 100 * completed_count (lb_id e) td)
   \<and> sorted_wrt ranks_before (top_users td rd pf) \<and> length (top_users td rd pf) \<le> 10"
proof -
  have "sorted_wrt ranks_before (top_users td rd pf)"
    by (simp add: top_users_def ranked_users_def sorted_sort_by sorted_wrt_take)
  moreover have "length (top_users td rd pf) \<le> 10"
    by (simp add: top_users_def)
  moreover have "\<forall>e\<in>set (top_users td rd pf). reward e = 100 * completed_count (lb_id e) td"
    using set_top_users pushed_user_fields by blast
  ultimately show ?thesis by simp
qed

lemmas scenario_defs =
  scenario_db_def scenario_tasks_def scenario_ratings_def scenario_doer_tasks_def
  rating_of_C_def scenario_profiles_def scenario_A_def scenario_B_def scenario_C_def
  scenario_D_def

text \<open>
  Claim C2. The creators list and the doers list that \<open>fetchLeaderboardData\<close> stores
  each satisfy: the reward of every entry is 100 times the number of that role's task
  rows attributed to the entry's user with status "completed"; the entries are in
  non-increasing order of reward and, among equal rewards, of rating average with an
  absent average counted as 0; and there are at most 10 entries.
\<close>

theorem leaderboard_rewards_sorted_top_ten:
  "(\<forall>e\<in>set (topCreators (fetchLeaderboardData db initial_page)).
       reward e = 100 * completed_count (lb_id e) (data_rows (tasksResp db)))
   \<and> sorted_wrt ranks_before (topCreators (fetchLeaderboardData db initial_page))
   \<and> length (topCreators (fetchLeaderboardData db initial_page)) \<le> 10
   \<and> (\<forall>e\<in>set (topDoers (fetchLeaderboardData db initial_page)).
       reward e = 100 * completed_count (lb_id e) (data_rows (doersResp db)))
   \<and> sorted_wrt ranks_before (topDoers (fetchLeaderboardData db initial_page))
   \<and> length (topDoers (fetchLeaderboardData db initial_page)) \<le> 10"
proof -
  have c: "topCreators (fetchLeaderboardData db initial_page) = []
        \<or> (\<exists>rd. topCreators (fetchLeaderboardData db initial_page)
                 = top_users (data_rows (tasksResp db)) rd (profileResp db))"
    by (auto simp add: fetchLeaderboardData_def initial_page_def Let_def)
  have d: "topDoers (fetchLeaderboardData db initial_page) = []
        \<or> (\<exists>rd. topDoers (fetchLeaderboardData db initial_page)
                 = top_users (data_rows (doersResp db)) rd (profileResp db))"
    by (auto simp add: fetchLeaderboardData_def initial_page_def Let_def)
  from c d show ?thesis
    using top_users_props by (elim disjE exE) simp_all
qed


lemma scenario_creators:
  "topCreators (fetchLeaderboardData scenario_db initial_page) = [scenario_A, scenario_B]"
  unfolding scenario_defs by code_simp

lemma scenario_doers:
  "topDoers (fetchLeaderboardData scenario_db initial_page) = [scenario_D, scenario_C]"
  unfolding scenario_defs by code_simp

theorem leaderboard_rewards_sorted_top_ten_witness:
  "topCreators (fetchLeaderboardData scenario_db initial_page) = [scenario_A, scenario_B]
   \<and> reward scenario_A = 100 * completed_count ''A'' scenario_tasks
   \<and> reward scenario_B = 100 * completed_count ''B'' scenario_tasks
   \<and> ranks_before scenario_A scenario_B
   \<and> topDoers (fetchLeaderboardData scenario_db initial_page) = [scenario_D, scenario_C]
   \<and> reward scenario_D = 100 * completed_count ''D'' scenario_doer_tasks
   \<and> ranks_before scenario_D scenario_C"
proof -
  have rows: "data_rows (tasksResp scenario_db) = scenario_tasks"
    "data_rows (doersResp scenario_db) = scenario_doer_tasks"
    by (simp_all add: scenario_db_def data_rows_def)
  have ids: "lb_id scenario_A = ''A''" "lb_id scenario_B = ''B''" "lb_id scenario_D = ''D''"
    by (simp_all add: scenario_defs)
  from leaderboard_rewards_sorted_top_ten [of scenario_db]
  show ?thesis
    by (simp add: scenario_creators scenario_doers rows ids)
qed

lemma attached_rating_Some:
  assumes "r \<in> set rd" "user_id r = Some k" "role_rating r \<noteq> None"
  shows "attached_rating k rd \<noteq> None
         \<and> (\<exists>r'\<in>set rd. user_id r' = Some k \<and> role_rating r' = attached_rating k rd)"
proof -
  let ?qs = "filter (\<lambda>r. user_id r = Some k \<and> role_rating r \<noteq> None) rd"
  from assms have ne: "?qs \<noteq> []" by (auto simp add: filter_empty_conv)
  then have "last ?qs \<in> set ?qs" by (rule last_in_set)
  then have l: "last ?qs \<in> set rd" "user_id (last ?qs) = Some k" "role_rating (last ?qs) \<noteq> None"
    by simp_all
  from ne have "attached_rating k rd = role_rating (last ?qs)"
    by (simp add: attached_rating_def Let_def)
  with l show ?thesis by metis
qed

lemma sorted_ranked: "sorted_wrt ranks_before (ranked_users td rd pf)"
  by (simp add: ranked_users_def sorted_sort_by)

lemma set_ranked: "set (ranked_users td rd pf) = set (pushed_users td rd pf)"
  by (simp add: ranked_users_def set_sort_by)

lemma distinct_ranked: "distinct (map lb_id (ranked_users td rd pf))"
  by (simp add: ranked_users_def distinct_map_sort_by map_lb_id_pushed distinct_final)

text \<open>
  Claim C7 says that a user known to the rating records only is always listed for the
  role. With ten doers holding a completed task each, the user C of the rating table is
  cut off by the limit of ten entries; and a rating row whose user identifier is the
  empty string is skipped altogether.
\<close>

theorem rating_only_user_not_listed:
  "rating_of_C \<in> set [rating_of_C] \<and> user_id rating_of_C = Some ''C''
   \<and> role_rating rating_of_C = Some 3
   \<and> Some ''C'' \<notin> set (map role_user_id crowded_tasks)
   \<and> map lb_id (top_users crowded_tasks [rating_of_C] no_profiles)
       = [''u0'', ''u1'', ''u2'', ''u3'', ''u4'', ''u5'', ''u6'', ''u7'', ''u8'', ''u9'']
   \<and> ''C'' \<notin> set (map lb_id (top_users crowded_tasks [rating_of_C] no_profiles))
   \<and> user_id rating_without_user = Some []
   \<and> role_rating rating_without_user = Some 3
   \<and> top_users [] [rating_without_user] no_profiles = []"
  unfolding crowded_tasks_def rating_of_C_def no_profiles_def rating_without_user_def
  by code_simp

text \<open>
  Claim C7, amended. When a non-empty user identifier has a rating row with a numeric
  average for the role and no task row of the role, the role's ranked list, before it is
  cut to ten entries, has an entry for that user with completed-task count 0, reward 0
  and the average of the user's last such rating row attached; every entry with a
  reward above 0 stands before it; and the top-ten list contains an entry for the user
  exactly when the entry's position in the ranked list is among the first ten.
\<close>

theorem rating_only_user_ranked_after_rewarded:
  assumes r: "r \<in> set rd" "user_id r = Some k" "k \<noteq> []" "role_rating r = Some x"
    and notask: "Some k \<notin> role_user_id ` set td"
  shows "\<exists>j<length (ranked_users td rd pf).
           lb_id (ranked_users td rd pf ! j) = k
         \<and> tasksCount (ranked_users td rd pf ! j) = 0
         \<and> reward (ranked_users td rd pf ! j) = 0
         \<and> rating (ranked_users td rd pf ! j) = attached_rating k rd
         \<and> (\<exists>r'\<in>set rd. user_id r' = Some k \<and> role_rating r' = attached_rating k rd
                        \<and> role_rating r' \<noteq> None)
         \<and> (\<forall>i<length (ranked_users td rd pf).
               0 < reward (ranked_users td rd pf ! i) \<longrightarrow> i < j)
         \<and> ((\<exists>e\<in>set (top_users td rd pf). lb_id e = k) \<longleftrightarrow> j < 10)"
proof -
  let ?R = "ranked_users td rd pf"
  from r have att: "attached_rating k rd \<noteq> None"
    "\<exists>r'\<in>set rd. user_id r' = Some k \<and> role_rating r' = attached_rating k rd"
    using attached_rating_Some [of r rd k] by simp_all
  from att(1) r(3) have "map_of (merge_ratings (aggregate_tasks td) rd) k \<noteq> None"
    using final_dom [of td rd k] by blast
  then have "k \<in> fst ` set (merge_ratings (aggregate_tasks td) rd)"
    by (metis map_of_eq_None_iff)
  then have "k \<in> set (map lb_id (pushed_users td rd pf))"
    by (simp add: map_lb_id_pushed)
  then obtain e where e: "e \<in> set ?R" "lb_id e = k"
    by (auto simp add: set_ranked)
  then obtain j where j: "j < length ?R" "?R ! j = e"
    by (auto simp add: in_set_conv_nth)
  from e have fields: "tasksCount e = 0" "reward e = 0" "rating e = attached_rating k rd"
    using pushed_user_fields [of e td rd pf] completed_count_absent [OF notask]
    by (simp_all add: set_ranked)
  have below: "i < j" if i: "i < length ?R" "0 < reward (?R ! i)" for i
  proof (rule ccontr)
    assume "\<not> i < j"
    moreover from i j fields have "i \<noteq> j" by auto
    ultimately have "j < i" by simp
    with i have "ranks_before (?R ! j) (?R ! i)"
      using sorted_ranked [of td rd pf] by (simp add: sorted_wrt_iff_nth_less)
    with j fields i show False by (simp add: ranks_before_def)
  qed
  have top: "(\<exists>e\<in>set (top_users td rd pf). lb_id e = k) \<longleftrightarrow> j < 10"
  proof
    assume "\<exists>e\<in>set (top_users td rd pf). lb_id e = k"
    then obtain i where i: "i < length (take 10 ?R)" "lb_id (take 10 ?R ! i) = k"
      by (auto simp add: top_users_def in_set_conv_nth)
    then have i': "i < length ?R" "i < 10" "lb_id (?R ! i) = k" by simp_all
    with j e have "map lb_id ?R ! i = map lb_id ?R ! j" by simp
    moreover have "i < length (map lb_id ?R)" "j < length (map lb_id ?R)"
      using i' j by simp_all
    ultimately have "i = j"
      using distinct_ranked [of td rd pf] nth_eq_iff_index_eq by blast
    with i' show "j < 10" by simp
  next
    assume "j < 10"
    with j have "j < length (take 10 ?R)" "take 10 ?R ! j = e" by simp_all
    then have "e \<in> set (take 10 ?R)" by (metis nth_mem)
    with e show "\<exists>e\<in>set (top_users td rd pf). lb_id e = k"
      by (auto simp add: top_users_def)
  qed
  from j e fields att below top r show ?thesis
    by (intro exI [of _ j]) (auto simp del: not_None_eq)
qed

lemma scenario_ranked_doers:
  "ranked_users scenario_doer_tasks [rating_of_C] scenario_profiles = [scenario_D, scenario_C]"
  unfolding scenario_defs by code_simp

theorem rating_only_user_ranked_after_rewarded_witness:
  "rating_of_C \<in> set [rating_of_C] \<and> user_id rating_of_C = Some ''C'' \<and> ''C'' \<noteq> []
   \<and> role_rating rating_of_C = Some 3
   \<and> Some ''C'' \<notin> role_user_id ` set scenario_doer_tasks
   \<and> ranked_users scenario_doer_tasks [rating_of_C] scenario_profiles
       = [scenario_D, scenario_C]
   \<and> rating scenario_C = attached_rating ''C'' [rating_of_C]
   \<and> ''C'' \<in> lb_id ` set (top_users scenario_doer_tasks [rating_of_C] scenario_profiles)"
proof -
  have h: "rating_of_C \<in> set [rating_of_C]" "user_id rating_of_C = Some ''C''"
    "''C'' \<noteq> []" "role_rating rating_of_C = Some 3"
    "Some ''C'' \<notin> role_user_id ` set scenario_doer_tasks"
    by (simp_all add: scenario_defs)
  from rating_only_user_ranked_after_rewarded [OF h, of scenario_profiles]
  obtain j where j: "j < length [scenario_D, scenario_C]"
    "lb_id ([scenario_D, scenario_C] ! j) = ''C''"
    "rating ([scenario_D, scenario_C] ! j) = attached_rating ''C'' [rating_of_C]"
    "(\<exists>e\<in>set (top_users scenario_doer_tasks [rating_of_C] scenario_profiles).
        lb_id e = ''C'') \<longleftrightarrow> j < 10"
    unfolding scenario_ranked_doers by blast
  from j(1,2) have j1: "j = 1"
    by (cases j) (simp_all add: scenario_defs)
  with j(3) have att: "rating scenario_C = attached_rating ''C'' [rating_of_C]"
    by simp
  from j1 j(4) obtain e
    where "e \<in> set (top_users scenario_doer_tasks [rating_of_C] scenario_profiles)"
      and "lb_id e = ''C''"
    by auto
  then have "''C'' \<in> lb_id ` set (top_users scenario_doer_tasks [rating_of_C] scenario_profiles)"
    by (metis imageI)
  with att h scenario_ranked_doers show ?thesis by simp
qed

lemma insert_by_map:
  "insert_by cmp (h x) (map h ys) = map h (insert_by (\<lambda>a b. cmp (h a) (h b)) x ys)"
  by (induction ys) simp_all

lemma sort_by_map: "sort_by cmp (map h xs) = map h (sort_by (\<lambda>a b. cmp (h a) (h b)) xs)"
  by (induction xs) (simp_all add: sort_by_def insert_by_map)

lemma compare_resolved:
  "compareUsers (resolve_user pf a) (resolve_user pf b)
   = compareUsers (resolve_user pf' a) (resolve_user pf' b)"
  by (cases a; cases b) (simp add: compareUsers_def resolve_user_def)

lemma map_lb_id_ranked:
  "map lb_id (ranked_users td rd pf) = map lb_id (ranked_users td rd pf')"
proof -
  have "map lb_id (ranked_users td rd p)
        = map fst (sort_by (\<lambda>a b. compareUsers (resolve_user p a) (resolve_user p b))
                     (merge_ratings (aggregate_tasks td) rd))" for p
    by (simp add: ranked_users_def pushed_users_def resolve_profiles_def sort_by_map
                  lb_id_resolve_user)
  moreover have "(\<lambda>a b. compareUsers (resolve_user pf a) (resolve_user pf b))
               = (\<lambda>a b. compareUsers (resolve_user pf' a) (resolve_user pf' b))"
    by (intro ext) (rule compare_resolved)
  ultimately show ?thesis by simp
qed

lemma pushed_placeholder:
  assumes "e \<in> set (pushed_users td rd pf)" "pf (lb_id e) = None"
  shows "username e = ''Unknown User'' \<and> avatar_url e = None"
proof -
  from pushed_user_acc [OF assms(1)] obtain a where e: "e = resolve_user pf (lb_id e, a)"
    by blast
  have "username (resolve_user pf (lb_id e, a)) = ''Unknown User''"
       "avatar_url (resolve_user pf (lb_id e, a)) = None"
    using assms(2) by (simp_all add: resolve_user_def)
  with e show ?thesis by simp
qed

text \<open>
  Claim C8. The loop over the accumulated entries pushes one user per accumulated
  identifier, in map order, whether or not a profile is found; a pushed user whose
  profile lookup returns no data carries the name "Unknown User" and no avatar; and the
  identifiers listed in the top ten, and their order, are the same under any other
  profile store, so missing profile data never removes an entry.
\<close>

theorem missing_profile_gets_placeholder:
  "map lb_id (pushed_users td rd pf) = map fst (merge_ratings (aggregate_tasks td) rd)
   \<and> (\<forall>e\<in>set (pushed_users td rd pf).
         pf (lb_id e) = None \<longrightarrow> username e = ''Unknown User'' \<and> avatar_url e = None)
   \<and> map lb_id (top_users td rd pf) = map lb_id (top_users td rd pf')
   \<and> (\<forall>e\<in>set (top_users td rd pf).
         pf (lb_id e) = None \<longrightarrow> username e = ''Unknown User'' \<and> avatar_url e = None)"
proof -
  have "map lb_id (top_users td rd pf) = map lb_id (top_users td rd pf')"
    using map_lb_id_ranked [of td rd pf pf'] by (simp add: top_users_def take_map [symmetric])
  then show ?thesis
    using pushed_placeholder set_top_users map_lb_id_pushed by blast
qed

lemma scenario_pushed_creators:
  "pushed_users scenario_tasks scenario_ratings scenario_profiles = [scenario_B, scenario_A]"
  unfolding scenario_defs by code_simp

theorem missing_profile_gets_placeholder_witness:
  "pushed_users scenario_tasks scenario_ratings scenario_profiles = [scenario_B, scenario_A]
   \<and> scenario_profiles (lb_id scenario_B) = None
   \<and> username scenario_B = ''Unknown User'' \<and> avatar_url scenario_B = None
   \<and> map lb_id (top_users scenario_tasks scenario_ratings scenario_profiles) = [''A'', ''B'']
   \<and> map lb_id (top_users scenario_tasks scenario_ratings no_profiles) = [''A'', ''B'']"
proof -
  have np: "scenario_profiles (lb_id scenario_B) = None"
    by (simp add: scenario_defs)
  have top: "map lb_id (top_users scenario_tasks scenario_ratings no_profiles) = [''A'', ''B'']"
    unfolding scenario_defs no_profiles_def by code_simp
  from missing_profile_gets_placeholder
         [of scenario_tasks scenario_ratings scenario_profiles no_profiles] np
  have "username scenario_B = ''Unknown User'' \<and> avatar_url scenario_B = None"
    "map lb_id (top_users scenario_tasks scenario_ratings scenario_profiles) = [''A'', ''B'']"
    by (simp_all add: scenario_pushed_creators top)
  with np scenario_pushed_creators top show ?thesis by simp
qed

end
